theory Spec2Isabelle
  imports Complex_Main
begin

section \<open>Numbers, vectors and errors\<close>

text \<open>
  The walker code raises \<open>ValueError\<close> for every rejected argument; list indexing out of
  range raises \<open>IndexError\<close> and a Python division by zero \<open>ZeroDivisionError\<close>.
  Python and numpy floats are modelled by the reals (no rounding, no NaN), a position by a
  list of reals.
\<close>

datatype error = ValueError | IndexError | ZeroDivisionError

text \<open>A step count as a caller can pass it: an \<open>int\<close> or a \<open>float\<close>.\<close>

datatype pynum = PyInt int | PyFloat real

text \<open>\<open>np.linalg.norm\<close> of a vector: the square root of the sum of the squares.\<close>

definition linalg_norm :: "real list \<Rightarrow> real" where
  "linalg_norm v = sqrt (\<Sum>x\<leftarrow>v. x\<^sup>2)"

text \<open>\<open>xs[i]\<close> for an index that is not negative.\<close>

definition getitem :: "'a list \<Rightarrow> nat \<Rightarrow> error + 'a" where
  "getitem xs i = (if i < length xs then Inr (xs ! i) else Inl IndexError)"

text \<open>\<open>path[i][j]\<close>: the outer index is evaluated first.\<close>

definition coord :: "real list list \<Rightarrow> nat \<Rightarrow> nat \<Rightarrow> error + real" where
  "coord p i j = (case getitem p i of Inl e \<Rightarrow> Inl e | Inr v \<Rightarrow> getitem v j)"

section \<open>Geometry utilities (walker.py)\<close>

definition exited_radius :: "real list \<Rightarrow> real \<Rightarrow> error + bool" where
  "exited_radius position radius =
     (if radius \<le> 0 then Inl ValueError
      else if radius < linalg_norm position then Inr True
      else Inr False)"

section \<open>The walker\<close>

text \<open>
  The fields of \<open>Walker\<close>. A KDTree is modelled by the list of points it was built from;
  \<open>None\<close> is the absent tree.
\<close>

record walker =
  name :: string
  restart_chance :: real
  restart_every :: int
  dim :: int
  magic_gates_placements :: "real list list option"
  magic_gates_destinations :: "real list list option"
  obstacles :: "real list list option"
  current_position :: "real list"
  path :: "real list list"

text \<open>The loop of \<open>exited_radius_at\<close>: the list is the rest of the path, from index \<open>i\<close> on.\<close>

fun exited_scan :: "real list list \<Rightarrow> real \<Rightarrow> nat \<Rightarrow> error + int" where
  "exited_scan [] radius i = Inr 0"
| "exited_scan (p # ps) radius i =
     (case exited_radius p radius of
        Inl e \<Rightarrow> Inl e
      | Inr True \<Rightarrow> Inr (int i)
      | Inr False \<Rightarrow> exited_scan ps radius (Suc i))"

definition exited_radius_at :: "walker \<Rightarrow> real \<Rightarrow> error + int" where
  "exited_radius_at w radius =
     (if radius \<le> 0 then Inl ValueError
      else if length (path w) = 0 then Inl ValueError
      else exited_scan (path w) radius 0)"

text \<open>
  The constructor's checks, in the order of \<open>Walker.__init__\<close>: each returns the error it
  raises, if any. The tests that every entry is a number are void here, where a vector is a
  list of reals.
\<close>

definition validate_name :: "string \<Rightarrow> error option" where
  "validate_name nm = (if nm = [] then Some ValueError else None)"

definition validate_dimensions :: "int \<Rightarrow> error option" where
  "validate_dimensions n_dim = (if n_dim \<le> 1 then Some ValueError else None)"

definition validate_obstacles :: "int \<Rightarrow> real list list option \<Rightarrow> error option" where
  "validate_obstacles n_dim obs =
     (case obs of
        None \<Rightarrow> None
      | Some os \<Rightarrow> if \<exists>ob \<in> set os. int (length ob) \<noteq> n_dim then Some ValueError else None)"

definition validate_gates ::
  "real list list option \<Rightarrow> real list list option \<Rightarrow> int \<Rightarrow> error option" where
  "validate_gates dests placements n_dim =
     (if (case placements of None \<Rightarrow> False
          | Some ps \<Rightarrow> \<exists>gate \<in> set ps. int (length gate) \<noteq> n_dim) then Some ValueError
      else if (case dests of None \<Rightarrow> False
          | Some ds \<Rightarrow> \<exists>gate \<in> set ds. int (length gate) \<noteq> n_dim) then Some ValueError
      else if placements = Some [] \<and> dests \<noteq> Some [] then Some ValueError
      else if placements \<noteq> Some [] \<and> dests = Some [] then Some ValueError
      else if placements = None \<and> dests \<noteq> None then Some ValueError
      else if placements \<noteq> None \<and> dests = None then Some ValueError
      else None)"

definition validate_restart :: "real \<Rightarrow> int \<Rightarrow> error option" where
  "validate_restart chance every =
     (if chance < 0 \<or> chance > 1 then Some ValueError
      else if every < 1 then Some ValueError
      else None)"

text \<open>\<open>KDTree(points) if points else None\<close>: no tree for \<open>None\<close> and for the empty list.\<close>

definition kdtree_if :: "real list list option \<Rightarrow> real list list option" where
  "kdtree_if pts = (case pts of None \<Rightarrow> None | Some [] \<Rightarrow> None | Some ps \<Rightarrow> Some ps)"

definition Walker_init ::
  "string \<Rightarrow> int \<Rightarrow> real list list option \<Rightarrow> real list list option \<Rightarrow>
   real list list option \<Rightarrow> real \<Rightarrow> int \<Rightarrow> error + walker" where
  "Walker_init nm n_dim placements dests obs chance every =
     (case validate_name nm of Some e \<Rightarrow> Inl e | None \<Rightarrow>
      case validate_dimensions n_dim of Some e \<Rightarrow> Inl e | None \<Rightarrow>
      case validate_obstacles n_dim obs of Some e \<Rightarrow> Inl e | None \<Rightarrow>
      case validate_gates dests placements n_dim of Some e \<Rightarrow> Inl e | None \<Rightarrow>
      case validate_restart chance every of Some e \<Rightarrow> Inl e | None \<Rightarrow>
        Inr \<lparr>name = nm, restart_chance = chance, restart_every = every, dim = n_dim,
             magic_gates_placements = kdtree_if placements,
             magic_gates_destinations = dests,
             obstacles = kdtree_if obs,
             current_position = replicate (nat n_dim) 0,
             path = [replicate (nat n_dim) 0]\<rparr>)"

definition get_dim :: "walker \<Rightarrow> int" where
  "get_dim w = dim w"

definition get_restart_every :: "walker \<Rightarrow> int" where
  "get_restart_every w = restart_every w"

text \<open>
  On values a copy is the value itself; what the copies share with the walker is the subject
  of the store model further down.
\<close>

definition get_path :: "walker \<Rightarrow> real list list" where
  "get_path w = path w"

definition hard_restart :: "walker \<Rightarrow> walker" where
  "hard_restart w =
     w\<lparr>current_position := replicate (nat (dim w)) 0, path := [replicate (nat (dim w)) 0]\<rparr>"

definition restart :: "walker \<Rightarrow> real list \<times> walker" where
  "restart w =
     (replicate (nat (dim w)) 0, w\<lparr>current_position := replicate (nat (dim w)) 0\<rparr>)"

definition set_path :: "walker \<Rightarrow> real list list \<Rightarrow> error + walker" where
  "set_path w p =
     (if length p = 0 then Inl ValueError
      else Inr (w\<lparr>path := p, current_position := last p\<rparr>))"

text \<open>
  The loop of \<open>times_crossed_y_axis_after\<close> over \<open>range(n - 1)\<close>. The chained comparison
  \<open>a > 0 >= b\<close> reads \<open>b\<close> only when \<open>a > 0\<close>, and the \<open>elif\<close> reads it only when \<open>a < 0\<close>.
\<close>

fun crossed_loop :: "real list list \<Rightarrow> nat list \<Rightarrow> int \<Rightarrow> error + int" where
  "crossed_loop p [] count = Inr count"
| "crossed_loop p (i # is) count =
     (case coord p i 1 of
        Inl e \<Rightarrow> Inl e
      | Inr a \<Rightarrow>
          if a > 0 then
            (case coord p (i + 1) 1 of
               Inl e \<Rightarrow> Inl e
             | Inr b \<Rightarrow> if 0 \<ge> b then crossed_loop p is (count + 1)
                        else crossed_loop p is count)
          else if a < 0 then
            (case coord p (i + 1) 1 of
               Inl e \<Rightarrow> Inl e
             | Inr b \<Rightarrow> if 0 \<le> b then crossed_loop p is (count + 1)
                        else crossed_loop p is count)
          else crossed_loop p is count)"

fun times_crossed_y_axis_after :: "walker \<Rightarrow> pynum \<Rightarrow> error + int" where
  "times_crossed_y_axis_after w (PyFloat x) =
     (if x < 0 then Inl ValueError
      else if x \<ge> real (length (path w)) then Inl ValueError
      else Inl ValueError)"
| "times_crossed_y_axis_after w (PyInt n) =
     (if n < 0 then Inl ValueError
      else if n \<ge> int (length (path w)) then Inl ValueError
      else crossed_loop (path w) [0..<nat (n - 1)] 0)"



subsection \<open>Walking\<close>

text \<open>
  \<open>step\<close> is abstract in \<open>Walker\<close>, and every draw is random. The source of randomness is a
  state \<open>'g\<close> with the operations that consume it: \<open>step\<close> stands for the variant's method,
  which computes the next cursor from the current one and its draws, stores it in
  \<open>_current_position\<close> and returns it; \<open>random_random\<close> is \<open>random.random()\<close>; \<open>random_choice\<close>
  draws the index that \<open>random.choice\<close> picks in a list of the given length.
\<close>

record 'g rand =
  step :: "real list \<Rightarrow> 'g \<Rightarrow> real list \<times> 'g"
  random_random :: "'g \<Rightarrow> real \<times> 'g"
  random_choice :: "nat \<Rightarrow> 'g \<Rightarrow> nat \<times> 'g"

text \<open>\<open>KDTree.query_ball_point(x, r)\<close>: the indices of the points within distance \<open>r\<close> of \<open>x\<close>.\<close>

definition query_ball_point :: "real list list \<Rightarrow> real list \<Rightarrow> real \<Rightarrow> nat list" where
  "query_ball_point pts x r =
     filter (\<lambda>i. linalg_norm (map (\<lambda>(a, b). a - b) (zip (pts ! i) x)) \<le> r) [0..<length pts]"

text \<open>
  The \<open>while\<close> loop that steps again as long as the candidate is within distance 1 of an
  obstacle. It need not end: \<open>None\<close> is the run that never leaves the loop.
\<close>

partial_function (option) resample ::
  "'g rand \<Rightarrow> real list list \<Rightarrow> real list \<Rightarrow> 'g \<Rightarrow> (real list \<times> 'g) option" where
  "resample ops obs pos g =
     (if query_ball_point obs pos 1 \<noteq> [] then
        (case step ops pos g of (pos', g') \<Rightarrow> resample ops obs pos' g')
      else Some (pos, g))"

text \<open>The gate test: both the placement tree and a non-empty destination list must exist.\<close>

definition gate_jump :: "'g rand \<Rightarrow> walker \<Rightarrow> real list \<Rightarrow> 'g \<Rightarrow> real list \<times> 'g" where
  "gate_jump ops w pos g =
     (case magic_gates_placements w of
        None \<Rightarrow> (pos, g)
      | Some pl \<Rightarrow>
          (case magic_gates_destinations w of
             None \<Rightarrow> (pos, g)
           | Some ds \<Rightarrow>
               if ds \<noteq> [] \<and> query_ball_point pl pos 0 \<noteq> [] then
                 (case random_choice ops (length ds) g of
                    (k, g') \<Rightarrow> (ds ! (k mod length ds), g'))
               else (pos, g)))"

text \<open>
  The restart test of iteration \<open>i\<close>. \<open>i % restart_every\<close> raises ZeroDivisionError for a
  zero \<open>restart_every\<close>, which the constructor rejects.
\<close>

definition restart_roll ::
  "'g rand \<Rightarrow> nat \<Rightarrow> walker \<Rightarrow> real list \<Rightarrow> 'g \<Rightarrow> error + real list \<times> walker \<times> 'g" where
  "restart_roll ops i w pos g =
     (if restart_every w = 0 then Inl ZeroDivisionError
      else if int i mod restart_every w = 0 then
        (case random_random ops g of
           (u, g') \<Rightarrow>
             if u < restart_chance w then
               (case restart w of (origin, w') \<Rightarrow> Inr (origin, w', g'))
             else Inr (pos, w, g'))
      else Inr (pos, w, g))"

text \<open>One iteration of the \<open>for\<close> loop of \<open>walk\<close>.\<close>

definition walk_iter :: "'g rand \<Rightarrow> nat \<Rightarrow> walker \<times> 'g \<Rightarrow> (error + walker \<times> 'g) option" where
  "walk_iter ops i s =
     (case s of (w, g) \<Rightarrow>
      case step ops (current_position w) g of (pos0, g0) \<Rightarrow>
      case (case obstacles w of
              None \<Rightarrow> Some (pos0, g0)
            | Some obs \<Rightarrow> resample ops obs pos0 g0) of
        None \<Rightarrow> None
      | Some (pos1, g1) \<Rightarrow>
          (case gate_jump ops w pos1 g1 of (pos2, g2) \<Rightarrow>
           case restart_roll ops i (w\<lparr>current_position := pos1\<rparr>) pos2 g2 of
             Inl e \<Rightarrow> Some (Inl e)
           | Inr (pos3, w3, g3) \<Rightarrow> Some (Inr (w3\<lparr>path := path w3 @ [pos3]\<rparr>, g3))))"

fun walk_loop :: "'g rand \<Rightarrow> nat list \<Rightarrow> walker \<times> 'g \<Rightarrow> (error + walker \<times> 'g) option" where
  "walk_loop ops [] s = Some (Inr s)"
| "walk_loop ops (i # rest) s =
     (case walk_iter ops i s of
        None \<Rightarrow> None
      | Some (Inl e) \<Rightarrow> Some (Inl e)
      | Some (Inr s') \<Rightarrow> walk_loop ops rest s')"

text \<open>
  \<open>walk(steps)\<close>: \<open>None\<close> when it never returns, \<open>Some (Inl e)\<close> when it raises \<open>e\<close>, and
  \<open>Some (Inr (w, g))\<close> when it returns, leaving the walker \<open>w\<close>.
\<close>

definition walk :: "'g rand \<Rightarrow> int \<Rightarrow> walker \<Rightarrow> 'g \<Rightarrow> (error + walker \<times> 'g) option" where
  "walk ops steps w g =
     (if steps \<le> 0 then Some (Inl ValueError)
      else walk_loop ops [0..<nat steps] (w, g))"

section \<open>The simulation\<close>

record simulation =
  axis :: "real list"
  radius :: real
  times_to_run :: int
  walker :: walker
  num_of_steps :: int
  sims :: "real list list list"

definition Simulation_init ::
  "int \<Rightarrow> int \<Rightarrow> walker \<Rightarrow> real list \<Rightarrow> real \<Rightarrow> error + simulation" where
  "Simulation_init n_runs steps w ax rad =
     (if n_runs \<le> 0 then Inl ValueError
      else if steps \<le> 0 then Inl ValueError
      else if rad \<le> 0 then Inl ValueError
      else if length ax = 0 then Inl ValueError
      else if int (length ax) \<noteq> get_dim w then Inl ValueError
      else if get_restart_every w > steps then Inl ValueError
      else Inr \<lparr>axis = ax, radius = rad, times_to_run = n_runs, walker = w,
                num_of_steps = steps, sims = []\<rparr>)"

definition get_times_run :: "simulation \<Rightarrow> int" where
  "get_times_run sim = int (length (sims sim))"

text \<open>
  \<open>run\<close>: the trials that remain are counted down. The ValueError of \<open>walk\<close> is raised before
  the walker is touched, so the \<open>except\<close> branch returns with the walker as \<open>hard_restart\<close>
  left it; any other exception propagates.
\<close>

fun run_loop ::
  "'g rand \<Rightarrow> nat \<Rightarrow> simulation \<times> 'g \<Rightarrow> (error + simulation \<times> 'g) option" where
  "run_loop ops 0 s = Some (Inr s)"
| "run_loop ops (Suc k) (sim, g) =
     (let w0 = hard_restart (walker sim) in
      case walk ops (num_of_steps sim) w0 g of
        None \<Rightarrow> None
      | Some (Inl ValueError) \<Rightarrow> Some (Inr (sim\<lparr>walker := w0\<rparr>, g))
      | Some (Inl e) \<Rightarrow> Some (Inl e)
      | Some (Inr (w1, g1)) \<Rightarrow>
          run_loop ops k (sim\<lparr>walker := w1, sims := sims sim @ [get_path w1]\<rparr>, g1))"

definition run :: "'g rand \<Rightarrow> simulation \<Rightarrow> 'g \<Rightarrow> (error + simulation \<times> 'g) option" where
  "run ops sim g = run_loop ops (nat (times_to_run sim)) (sim, g)"

text \<open>A loop whose body may raise: the first error ends it.\<close>

fun foldE :: "('a \<Rightarrow> 's \<Rightarrow> error + 's) \<Rightarrow> 'a list \<Rightarrow> 's \<Rightarrow> error + 's" where
  "foldE f [] s = Inr s"
| "foldE f (x # xs) s = (case f x s of Inl e \<Rightarrow> Inl e | Inr s' \<Rightarrow> foldE f xs s')"

text \<open>\<open>avg_path[i][j] += sim[i][j]\<close> and \<open>avg_path[i][j] /= len(self.__sims)\<close>.\<close>

definition add_cell ::
  "real list list \<Rightarrow> nat \<times> nat \<Rightarrow> real list list \<Rightarrow> error + real list list" where
  "add_cell sim ij avg_path =
     (case ij of (i, j) \<Rightarrow>
      case coord avg_path i j of
        Inl e \<Rightarrow> Inl e
      | Inr a \<Rightarrow>
          (case coord sim i j of
             Inl e \<Rightarrow> Inl e
           | Inr b \<Rightarrow> Inr (avg_path[i := (avg_path ! i)[j := a + b]])))"

definition div_cell :: "nat \<Rightarrow> nat \<times> nat \<Rightarrow> real list list \<Rightarrow> error + real list list" where
  "div_cell n ij avg_path =
     (case ij of (i, j) \<Rightarrow>
      case coord avg_path i j of
        Inl e \<Rightarrow> Inl e
      | Inr a \<Rightarrow>
          if n = 0 then Inl ZeroDivisionError
          else Inr (avg_path[i := (avg_path ! i)[j := a / real n]]))"

text \<open>
  \<open>get_avg_path\<close>. The two initialisation loops each append \<open>num_of_steps\<close> zero rows. A
  nested pair of \<open>for\<close> loops over \<open>i\<close> and \<open>j\<close> visits the pairs of \<open>List.product\<close> in order.
\<close>

definition get_avg_path :: "simulation \<Rightarrow> error + real list list" where
  "get_avg_path sim =
     (if length (get_path (walker sim)) \<le> 1 then Inl ValueError
      else
        (let d = nat (get_dim (walker sim));
             avg_path = replicate (nat (num_of_steps sim)) (replicate d 0)
                        @ replicate (nat (num_of_steps sim)) (replicate d 0)
         in case foldE (\<lambda>s avg. if s \<noteq> []
                                 then foldE (add_cell s) (List.product [0..<length s] [0..<d]) avg
                                 else Inr avg)
                   (sims sim) avg_path of
              Inl e \<Rightarrow> Inl e
            | Inr summed \<Rightarrow>
                foldE (div_cell (length (sims sim)))
                  (List.product [0..<length summed] [0..<d]) summed))"

section \<open>Copies and sharing\<close>

text \<open>
  Python lists are objects: \<open>self._path[:]\<close> builds a new outer list that holds the same
  element objects, and after \<open>__init__\<close> and \<open>hard_restart\<close> the only element of \<open>_path\<close> is the
  very object \<open>_current_position\<close>. Who sees a mutation depends on this sharing, so here the
  walker's two mutable fields are references into a store. A vector is a Python list
  (whose \<open>[:]\<close> is a new list) or a numpy array (whose \<open>[:]\<close> is a view on the same numbers:
  the cursor is an array after a step of the angle, variable-step and biased walkers).
\<close>

type_synonym ref = nat

datatype pyvec = PyList ref | NdArray ref

fun vec_ref :: "pyvec \<Rightarrow> ref" where
  "vec_ref (PyList r) = r"
| "vec_ref (NdArray r) = r"

record store =
  vectors :: "ref \<Rightarrow> real list"
  lists :: "ref \<Rightarrow> pyvec list"
  next_ref :: ref

record walker_refs =
  path_ref :: ref
  position_ref :: pyvec

definition empty_store :: store where
  "empty_store = \<lparr>vectors = (\<lambda>r. []), lists = (\<lambda>r. []), next_ref = 0\<rparr>"

text \<open>Allocation of a new list of numbers and of a new list of vectors.\<close>

definition new_vector :: "real list \<Rightarrow> store \<Rightarrow> ref \<times> store" where
  "new_vector v h =
     (next_ref h, h\<lparr>vectors := (vectors h)(next_ref h := v), next_ref := Suc (next_ref h)\<rparr>)"

definition new_list :: "pyvec list \<Rightarrow> store \<Rightarrow> ref \<times> store" where
  "new_list vs h =
     (next_ref h, h\<lparr>lists := (lists h)(next_ref h := vs), next_ref := Suc (next_ref h)\<rparr>)"

text \<open>
  The last two assignments of \<open>Walker.__init__\<close>:
  \<open>self._current_position = [0] * n_dim\<close> and \<open>self._path = [self._current_position]\<close>.
\<close>

definition init_refs :: "int \<Rightarrow> store \<Rightarrow> walker_refs \<times> store" where
  "init_refs n_dim h =
     (case new_vector (replicate (nat n_dim) 0) h of
        (c, h1) \<Rightarrow>
          (case new_list [PyList c] h1 of
             (p, h2) \<Rightarrow> (\<lparr>path_ref = p, position_ref = PyList c\<rparr>, h2)))"

text \<open>\<open>get_path\<close> returns \<open>self._path[:]\<close>, \<open>get_current_position\<close> returns \<open>self._current_position[:]\<close>.\<close>

definition get_path_ref :: "walker_refs \<Rightarrow> store \<Rightarrow> ref \<times> store" where
  "get_path_ref wr h = new_list (lists h (path_ref wr)) h"

definition get_current_position_ref :: "walker_refs \<Rightarrow> store \<Rightarrow> pyvec \<times> store" where
  "get_current_position_ref wr h =
     (case position_ref wr of
        PyList r \<Rightarrow> (case new_vector (vectors h r) h of (c, h') \<Rightarrow> (PyList c, h'))
      | NdArray r \<Rightarrow> (NdArray r, h))"

text \<open>The values behind the references: what \<open>==\<close> compares.\<close>

definition vec_value :: "store \<Rightarrow> pyvec \<Rightarrow> real list" where
  "vec_value h v = vectors h (vec_ref v)"

definition list_value :: "store \<Rightarrow> ref \<Rightarrow> real list list" where
  "list_value h r = map (vec_value h) (lists h r)"

definition trajectory :: "walker_refs \<Rightarrow> store \<Rightarrow> real list list" where
  "trajectory wr h = list_value h (path_ref wr)"

definition cursor :: "walker_refs \<Rightarrow> store \<Rightarrow> real list" where
  "cursor wr h = vec_value h (position_ref wr)"

text \<open>
  What a caller can do to an object it holds: give a list object any new contents (item
  assignment, \<open>append\<close>, \<open>del\<close>, \<open>clear\<close>), give a vector any new contents, or assign one
  coordinate, \<open>v[j] = x\<close>.
\<close>

definition list_assign :: "ref \<Rightarrow> pyvec list \<Rightarrow> store \<Rightarrow> store" where
  "list_assign r vs h = h\<lparr>lists := (lists h)(r := vs)\<rparr>"

definition vector_assign :: "pyvec \<Rightarrow> real list \<Rightarrow> store \<Rightarrow> store" where
  "vector_assign v xs h = h\<lparr>vectors := (vectors h)(vec_ref v := xs)\<rparr>"

definition vector_setitem :: "pyvec \<Rightarrow> nat \<Rightarrow> real \<Rightarrow> store \<Rightarrow> store" where
  "vector_setitem v j x h = vector_assign v ((vec_value h v)[j := x]) h"


section \<open>Example configurations\<close>

text \<open>A two-dimensional walker without obstacles, gates or restarts, as \<open>RandomGridWalker("A")\<close> is.\<close>

definition plain_walker :: walker where
  "plain_walker =
     \<lparr>name = ''A'', restart_chance = 0, restart_every = 1, dim = 2,
      magic_gates_placements = None, magic_gates_destinations = None, obstacles = None,
      current_position = [0, 0], path = [[0, 0]]\<rparr>"

text \<open>The same walker after a walk along the first axis, and after one across the second.\<close>

definition east_walker :: walker where
  "east_walker = plain_walker\<lparr>current_position := [3, 0], path := [[0, 0], [1, 0], [2, 0], [3, 0]]\<rparr>"

definition zigzag_walker :: walker where
  "zigzag_walker =
     plain_walker\<lparr>current_position := [0, 1],
                   path := [[0, 0], [0, 1], [0, 0], [0, -1], [0, 1], [0, 1]]\<rparr>"

text \<open>A source of randomness that always steps one unit along the first axis.\<close>

definition east_ops :: "nat rand" where
  "east_ops =
     \<lparr>step = (\<lambda>pos g. (pos[0 := pos ! 0 + 1], Suc g)),
      random_random = (\<lambda>g. (1 / 2, Suc g)),
      random_choice = (\<lambda>n g. (0, Suc g))\<rparr>"

text \<open>A walker that restarts at every step, and one with an obstacle on its way.\<close>

definition homing_walker :: walker where
  "homing_walker = plain_walker\<lparr>restart_chance := 1\<rparr>"

definition fenced_walker :: walker where
  "fenced_walker = plain_walker\<lparr>obstacles := Some [[2, 0]]\<rparr>"

text \<open>\<open>Simulation(2, 3, walker, [0, 1], 1)\<close> as constructed, and with its two trials recorded.\<close>

definition short_sim :: simulation where
  "short_sim =
     \<lparr>axis = [0, 1], radius = 1, times_to_run = 2, walker = plain_walker,
      num_of_steps = 3, sims = []\<rparr>"

definition ran_sim :: simulation where
  "ran_sim = short_sim\<lparr>walker := east_walker, sims := [path east_walker, path east_walker]\<rparr>"






section \<open>Properties\<close>

lemma exited_radius_pos:
  "0 < r \<Longrightarrow> exited_radius p r = Inr (r < linalg_norm p)"
  by (simp add: exited_radius_def)

lemma exited_scan_none:
  "0 < r \<Longrightarrow> \<forall>p \<in> set ps. \<not> r < linalg_norm p \<Longrightarrow> exited_scan ps r i = Inr 0"
  by (induction ps arbitrary: i) (simp_all add: exited_radius_pos)

lemma exited_scan_first:
  "0 < r \<Longrightarrow> k < length ps \<Longrightarrow> r < linalg_norm (ps ! k) \<Longrightarrow>
   \<forall>j<k. \<not> r < linalg_norm (ps ! j) \<Longrightarrow> exited_scan ps r i = Inr (int (i + k))"
proof (induction ps arbitrary: i k)
  case Nil
  then show ?case by simp
next
  case (Cons p ps)
  show ?case
  proof (cases k)
    case 0
    with Cons.prems show ?thesis by (simp add: exited_radius_pos)
  next
    case (Suc k')
    from Cons.prems Suc have head: "\<not> r < linalg_norm p" by auto
    from Cons.prems Suc have rest: "\<forall>j<k'. \<not> r < linalg_norm (ps ! j)" by auto
    from Cons.prems Suc have "exited_scan ps r (Suc i) = Inr (int (Suc i + k'))"
      by (intro Cons.IH) (use rest in auto)
    with head Cons.prems(1) Suc show ?thesis by (simp add: exited_radius_pos)
  qed
qed




lemma exited_radius_at_some:
  assumes "0 < r" and "k < length (path w)" and "r < linalg_norm (path w ! k)"
    and "\<forall>j<k. \<not> r < linalg_norm (path w ! j)"
  shows "exited_radius_at w r = Inr (int k)"
proof -
  have "exited_scan (path w) r 0 = Inr (int (0 + k))"
    using assms by (intro exited_scan_first) auto
  with assms(1,2) show ?thesis by (auto simp: exited_radius_at_def)
qed

lemma exited_radius_at_none:
  assumes "0 < r" and "path w \<noteq> []" and "\<forall>p \<in> set (path w). \<not> r < linalg_norm p"
  shows "exited_radius_at w r = Inr 0"
  using assms exited_scan_none [of r "path w" 0] by (simp add: exited_radius_at_def)

lemma first_exit_index:
  assumes "\<exists>i<length ps. r < linalg_norm (ps ! i)"
  obtains k where "k < length ps" and "r < linalg_norm (ps ! k)"
    and "\<forall>j<k. \<not> r < linalg_norm (ps ! j)"
proof -
  let ?P = "\<lambda>i. i < length ps \<and> r < linalg_norm (ps ! i)"
  define k where "k = (LEAST i. ?P i)"
  from assms have ex: "\<exists>i. ?P i" by blast
  have Pk: "?P k" unfolding k_def using ex by (rule LeastI_ex)
  have "\<forall>j<k. \<not> ?P j" unfolding k_def using not_less_Least by blast
  with Pk have "\<forall>j<k. \<not> r < linalg_norm (ps ! j)" by auto
  with Pk that show thesis by blast
qed

text \<open>
  C4. For a walker with a non-empty trajectory, \<open>exited_radius_at(radius)\<close> raises
  ValueError exactly when \<open>radius \<le> 0\<close>. For a positive radius it returns the smallest
  index whose point \<open>exited_radius\<close> reports as outside, and 0 when \<open>exited_radius\<close> reports
  no point of the trajectory as outside.
\<close>

theorem exited_radius_at_spec:
  assumes "path w \<noteq> []"
  shows "(exited_radius_at w r = Inl ValueError \<longleftrightarrow> r \<le> 0)
    \<and> (0 < r \<longrightarrow>
         (\<exists>i<length (path w). exited_radius (path w ! i) r = Inr True
             \<and> (\<forall>j<i. exited_radius (path w ! j) r \<noteq> Inr True)
             \<and> exited_radius_at w r = Inr (int i))
         \<or> ((\<forall>i<length (path w). exited_radius (path w ! i) r \<noteq> Inr True)
             \<and> exited_radius_at w r = Inr 0))"
proof (cases "r \<le> 0")
  case True
  then show ?thesis by (simp add: exited_radius_at_def)
next
  case False
  then have pos: "0 < r" by simp
  show ?thesis
  proof (cases "\<exists>i<length (path w). r < linalg_norm (path w ! i)")
    case True
    then obtain k where k: "k < length (path w)" "r < linalg_norm (path w ! k)"
      "\<forall>j<k. \<not> r < linalg_norm (path w ! j)"
      by (rule first_exit_index)
    have res: "exited_radius_at w r = Inr (int k)"
      using pos k by (rule exited_radius_at_some)
    have "exited_radius (path w ! k) r = Inr True
        \<and> (\<forall>j<k. exited_radius (path w ! j) r \<noteq> Inr True)"
      using pos k by (simp add: exited_radius_pos)
    with res k(1) pos show ?thesis by auto
  next
    case False
    then have none: "\<forall>p \<in> set (path w). \<not> r < linalg_norm p"
      by (auto simp: in_set_conv_nth)
    have res: "exited_radius_at w r = Inr 0"
      using pos assms none by (rule exited_radius_at_none)
    have "\<forall>i<length (path w). exited_radius (path w ! i) r \<noteq> Inr True"
      using pos False by (simp add: exited_radius_pos)
    with res pos show ?thesis by auto
  qed
qed

lemma norm_east: "linalg_norm [0, 0] = 0" "linalg_norm [1, 0] = 1" "linalg_norm [2, 0] = 2"
  "linalg_norm [3, 0] = 3"
  using real_sqrt_abs [of 2] real_sqrt_abs [of 3] by (simp_all add: linalg_norm_def)

theorem exited_radius_at_spec_witness:
  "path east_walker \<noteq> [] \<and> exited_radius_at east_walker (3 / 2) = Inr 2
   \<and> exited_radius_at east_walker 5 = Inr 0
   \<and> exited_radius_at east_walker 0 = Inl ValueError"
  using exited_radius_at_spec [of east_walker "3 / 2"] exited_radius_at_spec [of east_walker 0]
  by (simp add: east_walker_def plain_walker_def exited_radius_at_def exited_radius_def norm_east)



lemma crossed_loop_count:
  assumes "\<forall>i \<in> set js. Suc i < length p \<and> 2 \<le> length (p ! i) \<and> 2 \<le> length (p ! Suc i)"
  shows "crossed_loop p js c =
    Inr (c + int (length (filter (\<lambda>i. (p ! i ! 1 > 0 \<and> p ! Suc i ! 1 \<le> 0)
                                   \<or> (p ! i ! 1 < 0 \<and> p ! Suc i ! 1 \<ge> 0)) js)))"
  using assms by (induction js arbitrary: c) (auto simp: coord_def getitem_def)

text \<open>
  C5. For an integer \<open>n\<close> with \<open>0 \<le> n < len(path)\<close> (the first \<open>n\<close> points having a second
  coordinate), \<open>times_crossed_y_axis_after(n)\<close> returns the number of indices \<open>i\<close> with
  \<open>i + 1 < n\<close> whose second coordinate is \<open>> 0\<close> at \<open>i\<close> and \<open>\<le> 0\<close> at \<open>i + 1\<close>, or \<open>< 0\<close> at \<open>i\<close>
  and \<open>\<ge> 0\<close> at \<open>i + 1\<close>; a pair that starts at zero is never counted. Every other \<open>n\<close>, a
  float or an integer out of range, raises ValueError.
\<close>

theorem times_crossed_y_axis_after_spec:
  "(0 \<le> n \<and> n < int (length (path w)) \<and> (\<forall>i < nat n. 2 \<le> length (path w ! i)) \<longrightarrow>
      times_crossed_y_axis_after w (PyInt n) =
        Inr (int (card {i. Suc i < nat n \<and>
                    ((path w ! i ! 1 > 0 \<and> path w ! Suc i ! 1 \<le> 0)
                     \<or> (path w ! i ! 1 < 0 \<and> path w ! Suc i ! 1 \<ge> 0))})))
   \<and> ((\<nexists>k. m = PyInt k \<and> 0 \<le> k \<and> k < int (length (path w))) \<longrightarrow>
        times_crossed_y_axis_after w m = Inl ValueError)"
proof (intro conjI impI)
  assume valid: "0 \<le> n \<and> n < int (length (path w)) \<and> (\<forall>i < nat n. 2 \<le> length (path w ! i))"
  let ?P = "\<lambda>i. (path w ! i ! 1 > 0 \<and> path w ! Suc i ! 1 \<le> 0)
               \<or> (path w ! i ! 1 < 0 \<and> path w ! Suc i ! 1 \<ge> 0)"
  have idx: "\<forall>i \<in> set [0..<nat (n - 1)].
      Suc i < length (path w) \<and> 2 \<le> length (path w ! i) \<and> 2 \<le> length (path w ! Suc i)"
    using valid by auto
  have "length (filter ?P [0..<nat (n - 1)]) = card ({i. ?P i} \<inter> set [0..<nat (n - 1)])"
    by (rule distinct_length_filter) simp
  also have "{i. ?P i} \<inter> set [0..<nat (n - 1)] = {i. Suc i < nat n \<and> ?P i}"
    using valid by auto
  finally have "length (filter ?P [0..<nat (n - 1)]) = card {i. Suc i < nat n \<and> ?P i}" .
  with crossed_loop_count [OF idx, of 0] valid
  show "times_crossed_y_axis_after w (PyInt n) = Inr (int (card {i. Suc i < nat n \<and> ?P i}))"
    by simp
next
  assume "\<nexists>k. m = PyInt k \<and> 0 \<le> k \<and> k < int (length (path w))"
  then show "times_crossed_y_axis_after w m = Inl ValueError"
    by (cases m) auto
qed

theorem times_crossed_y_axis_after_spec_witness:
  "(0::int) \<le> 5 \<and> 5 < int (length (path zigzag_walker))
   \<and> map length (path zigzag_walker) = [2, 2, 2, 2, 2, 2]
   \<and> times_crossed_y_axis_after zigzag_walker (PyInt 5) = Inr 2
   \<and> card {i. Suc i < nat 5 \<and>
               ((path zigzag_walker ! i ! 1 > 0 \<and> path zigzag_walker ! Suc i ! 1 \<le> 0)
                \<or> (path zigzag_walker ! i ! 1 < 0 \<and> path zigzag_walker ! Suc i ! 1 \<ge> 0))} = 2
   \<and> times_crossed_y_axis_after zigzag_walker (PyInt 6) = Inl ValueError
   \<and> times_crossed_y_axis_after zigzag_walker (PyFloat (5 / 2)) = Inl ValueError"
proof -
  have len: "\<forall>i < nat 5. 2 \<le> length (path zigzag_walker ! i)"
    by (auto simp: zigzag_walker_def plain_walker_def less_Suc_eq eval_nat_numeral)
  have run: "times_crossed_y_axis_after zigzag_walker (PyInt 5) = Inr 2"
    by (simp add: zigzag_walker_def plain_walker_def coord_def getitem_def upt_rec)
  have cnt: "card {i. Suc i < nat 5 \<and>
               ((path zigzag_walker ! i ! 1 > 0 \<and> path zigzag_walker ! Suc i ! 1 \<le> 0)
                \<or> (path zigzag_walker ! i ! 1 < 0 \<and> path zigzag_walker ! Suc i ! 1 \<ge> 0))} = 2"
    using times_crossed_y_axis_after_spec [of 5 zigzag_walker "PyInt 6"] len run
    by (simp add: zigzag_walker_def plain_walker_def)
  have rest: "(0::int) \<le> 5 \<and> 5 < int (length (path zigzag_walker))
      \<and> map length (path zigzag_walker) = [2, 2, 2, 2, 2, 2]
      \<and> times_crossed_y_axis_after zigzag_walker (PyInt 6) = Inl ValueError
      \<and> times_crossed_y_axis_after zigzag_walker (PyFloat (5 / 2)) = Inl ValueError"
    using times_crossed_y_axis_after_spec [of 5 zigzag_walker "PyInt 6"]
      times_crossed_y_axis_after_spec [of 5 zigzag_walker "PyFloat (5 / 2)"]
    by (simp add: zigzag_walker_def plain_walker_def)
  from cnt rest run show ?thesis by blast
qed



text \<open>
  C8. \<open>Simulation(times_to_run, num_of_steps, walker, axis, radius)\<close> raises ValueError
  exactly when \<open>times_to_run \<le> 0\<close>, \<open>num_of_steps \<le> 0\<close>, \<open>radius \<le> 0\<close>, the axis is empty, the
  axis length differs from the walker's dimension, or the walker's \<open>restart_every\<close> exceeds
  \<open>num_of_steps\<close>; otherwise it returns a simulation that holds no trajectory.
\<close>

theorem Simulation_init_spec:
  "(Simulation_init n_runs steps w ax rad = Inl ValueError \<longleftrightarrow>
       n_runs \<le> 0 \<or> steps \<le> 0 \<or> rad \<le> 0 \<or> ax = [] \<or> int (length ax) \<noteq> dim w
       \<or> restart_every w > steps)
   \<and> (Simulation_init n_runs steps w ax rad \<noteq> Inl ValueError \<longrightarrow>
        (\<exists>s. Simulation_init n_runs steps w ax rad = Inr s \<and> sims s = []
             \<and> get_times_run s = 0))"
  by (auto simp: Simulation_init_def get_dim_def get_restart_every_def get_times_run_def)

theorem Simulation_init_spec_witness:
  "Simulation_init 10 10 plain_walker [0, 1] 10 \<noteq> Inl ValueError
   \<and> (\<exists>s. Simulation_init 10 10 plain_walker [0, 1] 10 = Inr s \<and> sims s = [])
   \<and> Simulation_init 0 10 plain_walker [0, 1] 10 = Inl ValueError
   \<and> Simulation_init 10 10 plain_walker [0, 1, 0] 10 = Inl ValueError"
proof -
  have ok: "Simulation_init 10 10 plain_walker [0, 1] 10 \<noteq> Inl ValueError"
    using Simulation_init_spec [of 10 10 plain_walker "[0, 1]" 10]
    by (simp add: plain_walker_def)
  then show ?thesis
    using Simulation_init_spec [of 10 10 plain_walker "[0, 1]" 10]
      Simulation_init_spec [of 0 10 plain_walker "[0, 1]" 10]
      Simulation_init_spec [of 10 10 plain_walker "[0, 1, 0]" 10]
    by (auto simp: plain_walker_def)
qed

subsection \<open>Walking and running\<close>

lemma restart_roll_fields:
  "restart_roll ops i w pos g = Inr (pos', w', g') \<Longrightarrow>
   path w' = path w \<and> restart_every w' = restart_every w \<and> dim w' = dim w
   \<and> obstacles w' = obstacles w"
  by (auto simp: restart_roll_def restart_def split: if_splits prod.splits)


lemma walk_iter_fields:
  assumes "walk_iter ops i (w, g) = Some (Inr (w', g'))"
  shows "length (path w') = Suc (length (path w)) \<and> restart_every w' = restart_every w"
  using assms
  by (auto simp: walk_iter_def split: prod.splits option.splits sum.splits
      dest!: restart_roll_fields)


lemma walk_loop_fields:
  "walk_loop ops js (w, g) = Some (Inr (w', g')) \<Longrightarrow>
   length (path w') = length (path w) + length js \<and> restart_every w' = restart_every w"
proof (induction js arbitrary: w g)
  case Nil
  then show ?case by simp
next
  case (Cons i js)
  from Cons.prems obtain w1 g1 where it: "walk_iter ops i (w, g) = Some (Inr (w1, g1))"
    and rest: "walk_loop ops js (w1, g1) = Some (Inr (w', g'))"
    by (auto split: option.splits sum.splits)
  from Cons.IH [OF rest] walk_iter_fields [OF it] show ?case by simp
qed


lemma resample_near:
  "query_ball_point obs pos 1 \<noteq> [] \<Longrightarrow>
   resample ops obs pos g = (case step ops pos g of (pos', g') \<Rightarrow> resample ops obs pos' g')"
  by (subst resample.simps) simp

lemma resample_clear:
  "query_ball_point obs pos 1 = [] \<Longrightarrow> resample ops obs pos g = Some (pos, g)"
  by (subst resample.simps) simp

lemma walk_iter_total:
  assumes "obstacles w = None" and "restart_every w \<noteq> 0"
  shows "\<exists>w' g'. walk_iter ops i (w, g) = Some (Inr (w', g')) \<and> obstacles w' = None"
  using assms
  by (auto simp: walk_iter_def restart_roll_def restart_def split: prod.splits)

lemma walk_loop_total:
  "obstacles w = None \<Longrightarrow> restart_every w \<noteq> 0 \<Longrightarrow>
   \<exists>w' g'. walk_loop ops js (w, g) = Some (Inr (w', g'))"
proof (induction js arbitrary: w g)
  case Nil
  then show ?case by simp
next
  case (Cons i js)
  from walk_iter_total [OF Cons.prems, of ops i g] obtain w1 g1
    where it: "walk_iter ops i (w, g) = Some (Inr (w1, g1))" and ob: "obstacles w1 = None"
    by blast
  from walk_iter_fields [OF it] Cons.prems have "restart_every w1 \<noteq> 0" by simp
  from Cons.IH [OF ob this, of g1] it show ?case by simp
qed

lemma walk_returns_without_obstacles:
  "obstacles w = None \<Longrightarrow> restart_every w \<noteq> 0 \<Longrightarrow> 1 \<le> steps \<Longrightarrow>
   \<exists>w' g'. walk ops steps w g = Some (Inr (w', g'))"
  using walk_loop_total [of w ops "[0..<nat steps]" g] by (simp add: walk_def)



lemma hard_restart_examples:
  "hard_restart plain_walker = plain_walker" "hard_restart east_walker = plain_walker"
  by (simp_all add: hard_restart_def plain_walker_def east_walker_def numeral_2_eq_2)

lemma walk_east_from: "walk east_ops 3 plain_walker g = Some (Inr (east_walker, g + 6))"
  by (simp add: walk_def walk_iter_def east_ops_def plain_walker_def east_walker_def
      gate_jump_def restart_roll_def upt_rec)

lemma walk_homing:
  "walk east_ops 2 homing_walker 0 =
     Some (Inr (homing_walker\<lparr>path := [[0, 0], [0, 0], [0, 0]]\<rparr>, 4))"
  by (simp add: walk_def walk_iter_def east_ops_def plain_walker_def homing_walker_def
      gate_jump_def restart_roll_def restart_def upt_rec numeral_2_eq_2)

lemma walk_fenced:
  "walk east_ops 1 fenced_walker 0 =
     Some (Inr (fenced_walker\<lparr>current_position := [4, 0], path := [[0, 0], [4, 0]]\<rparr>, 5))"
  by (simp add: walk_def walk_iter_def east_ops_def plain_walker_def fenced_walker_def
      gate_jump_def restart_roll_def query_ball_point_def linalg_norm_def
      resample_near resample_clear)

lemma init_short_sim: "Simulation_init 2 3 plain_walker [0, 1] 1 = Inr short_sim"
  by (simp add: Simulation_init_def short_sim_def get_dim_def get_restart_every_def
      plain_walker_def)

lemma run_short_sim: "run east_ops short_sim 0 = Some (Inr (ran_sim, 12))"
  by (simp add: run_def short_sim_def ran_sim_def numeral_2_eq_2 hard_restart_examples
      walk_east_from get_path_def)

text \<open>
  C3. \<open>walk(steps)\<close> raises ValueError when \<open>steps \<le> 0\<close>. For \<open>steps \<ge> 1\<close>, whenever the call
  returns, the trajectory is longer by exactly \<open>steps\<close> points than before, whatever the
  steps, gates and restarts did. (Without obstacles the call always returns:
  \<open>walk_returns_without_obstacles\<close>.)
\<close>

theorem walk_length:
  "(steps \<le> 0 \<longrightarrow> walk ops steps w g = Some (Inl ValueError))
   \<and> (1 \<le> steps \<and> walk ops steps w g = Some (Inr (w', g')) \<longrightarrow>
        int (length (path w')) = int (length (path w)) + steps)"
  using walk_loop_fields [of ops "[0..<nat steps]" w g w' g']
  by (auto simp: walk_def)

theorem walk_length_witness:
  "(1::int) \<le> 3 \<and> walk east_ops 3 plain_walker 0 = Some (Inr (east_walker, 6))
   \<and> int (length (path east_walker)) = int (length (path plain_walker)) + 3
   \<and> walk east_ops 0 plain_walker 0 = Some (Inl ValueError)
   \<and> walk east_ops 2 homing_walker 0 =
       Some (Inr (homing_walker\<lparr>path := [[0, 0], [0, 0], [0, 0]]\<rparr>, 4))
   \<and> walk east_ops 1 fenced_walker 0 =
       Some (Inr (fenced_walker\<lparr>current_position := [4, 0], path := [[0, 0], [4, 0]]\<rparr>, 5))"
proof -
  have r: "walk east_ops 3 plain_walker 0 = Some (Inr (east_walker, 6))"
    using walk_east_from [of 0] by simp
  show ?thesis
    using r walk_length [of 3 east_ops plain_walker 0 east_walker 6]
      walk_length [of 0 east_ops plain_walker 0 east_walker 6] walk_homing walk_fenced
    by simp
qed



subsection \<open>The average path\<close>

lemma foldE_invariant:
  assumes "\<And>x s s'. P s \<Longrightarrow> f x s = Inr s' \<Longrightarrow> P s'" and "P s" and "foldE f xs s = Inr s'"
  shows "P s'"
  using assms(2,3)
proof (induction xs arbitrary: s)
  case Nil
  then show ?case by simp
next
  case (Cons x xs)
  then obtain s1 where s1: "f x s = Inr s1" "foldE f xs s1 = Inr s'"
    by (auto split: sum.splits)
  from assms(1) [OF Cons.prems(1) s1(1)] have "P s1" .
  from Cons.IH [OF this s1(2)] show ?case .
qed

lemma add_cell_length: "add_cell sim ij avg = Inr avg' \<Longrightarrow> length avg' = length avg"
  by (auto simp: add_cell_def split: prod.splits sum.splits)

lemma div_cell_length: "div_cell n ij avg = Inr avg' \<Longrightarrow> length avg' = length avg"
  by (auto simp: div_cell_def split: prod.splits sum.splits if_splits)

text \<open>Whenever \<open>get_avg_path\<close> returns, it returns twice \<open>num_of_steps\<close> points.\<close>

lemma get_avg_path_length:
  assumes "get_avg_path sim = Inr r"
  shows "length r = 2 * nat (num_of_steps sim)"
proof -
  let ?d = "nat (get_dim (walker sim))"
  let ?n = "nat (num_of_steps sim)"
  let ?init = "replicate ?n (replicate ?d 0) @ replicate ?n (replicate ?d (0::real))"
  let ?P = "\<lambda>avg :: real list list. length avg = 2 * ?n"
  from assms obtain summed where
    sum: "foldE (\<lambda>s avg. if s \<noteq> []
              then foldE (add_cell s) (List.product [0..<length s] [0..<?d]) avg
              else Inr avg) (sims sim) ?init = Inr summed"
    and dv: "foldE (div_cell (length (sims sim)))
              (List.product [0..<length summed] [0..<?d]) summed = Inr r"
    by (auto simp: get_avg_path_def Let_def split: if_splits sum.splits)
  have inner: "\<And>s avg avg'. ?P avg \<Longrightarrow>
      foldE (add_cell s) (List.product [0..<length s] [0..<?d]) avg = Inr avg' \<Longrightarrow> ?P avg'"
    by (rule foldE_invariant [where P = ?P and f = "add_cell s" for s])
      (auto dest: add_cell_length)
  have summed: "?P summed"
    by (rule foldE_invariant [where P = ?P, OF _ _ sum])
      (auto split: if_splits dest: inner)
  show ?thesis
    by (rule foldE_invariant [where P = ?P, OF _ summed dv]) (auto dest: div_cell_length)
qed

text \<open>
  The loops over the cells, in closed form: a loop over \<open>List.product [0..<m] [0..<d]\<close> whose
  body replaces cell \<open>(i, j)\<close> by \<open>g i j\<close> of its content rewrites the first \<open>m\<close> rows.
\<close>

lemma foldE_append:
  "foldE f (xs @ ys) s = (case foldE f xs s of Inl e \<Rightarrow> Inl e | Inr s' \<Rightarrow> foldE f ys s')"
  by (induction xs arbitrary: s) (auto split: sum.splits)

lemma product_snoc:
  "List.product (xs @ [x]) ys = List.product xs ys @ map (Pair x) ys"
  by (induction xs) simp_all

lemma row_fold:
  assumes cell: "\<And>j a. j < k \<Longrightarrow> i < length a \<Longrightarrow> j < length (a ! i) \<Longrightarrow>
      f (i, j) a = Inr (a[i := (a ! i)[j := g j (a ! i ! j)]])"
    and "i < length avg" and "k \<le> length (avg ! i)"
  shows "foldE f (map (Pair i) [0..<k]) avg =
    Inr (avg[i := map (\<lambda>j. if j < k then g j (avg ! i ! j) else avg ! i ! j)
                    [0..<length (avg ! i)]])"
  using assms
proof (induction k)
  case 0
  then show ?case by (simp add: map_nth)
next
  case (Suc k)
  let ?row = "map (\<lambda>j. if j < k then g j (avg ! i ! j) else avg ! i ! j) [0..<length (avg ! i)]"
  let ?avg1 = "avg[i := ?row]"
  have ih: "foldE f (map (Pair i) [0..<k]) avg = Inr ?avg1"
    using Suc by simp
  have c: "f (i, k) ?avg1 = Inr (?avg1[i := (?avg1 ! i)[k := g k (?avg1 ! i ! k)]])"
    using Suc.prems by (intro Suc.prems(1)) auto
  have row: "(?avg1 ! i)[k := g k (?avg1 ! i ! k)] =
      map (\<lambda>j. if j < Suc k then g j (avg ! i ! j) else avg ! i ! j) [0..<length (avg ! i)]"
    using Suc.prems by (intro nth_equalityI) (auto simp: nth_list_update less_Suc_eq)
  show ?case
    using ih c row by (simp add: foldE_append)
qed

lemma cells_fold:
  assumes cell: "\<And>i j a. i < m \<Longrightarrow> j < d \<Longrightarrow> i < length a \<Longrightarrow> j < length (a ! i) \<Longrightarrow>
      f (i, j) a = Inr (a[i := (a ! i)[j := g i j (a ! i ! j)]])"
    and "m \<le> length avg" and "\<forall>i<m. length (avg ! i) = d"
  shows "foldE f (List.product [0..<m] [0..<d]) avg =
    Inr (map (\<lambda>i. if i < m then map (\<lambda>j. g i j (avg ! i ! j)) [0..<d] else avg ! i)
           [0..<length avg])"
  using assms
proof (induction m)
  case 0
  then show ?case by (simp add: map_nth)
next
  case (Suc m)
  let ?avg1 = "map (\<lambda>i. if i < m then map (\<lambda>j. g i j (avg ! i ! j)) [0..<d] else avg ! i)
                 [0..<length avg]"
  have ih: "foldE f (List.product [0..<m] [0..<d]) avg = Inr ?avg1"
    using Suc by simp
  have m: "m < length ?avg1" "?avg1 ! m = avg ! m" "length (avg ! m) = d"
    using Suc.prems by auto
  have "foldE f (map (Pair m) [0..<d]) ?avg1 =
    Inr (?avg1[m := map (\<lambda>j. if j < d then g m j (?avg1 ! m ! j) else ?avg1 ! m ! j)
                     [0..<length (?avg1 ! m)]])"
    using m by (intro row_fold [where g = "g m"] Suc.prems(1)) auto
  also have "?avg1[m := map (\<lambda>j. if j < d then g m j (?avg1 ! m ! j) else ?avg1 ! m ! j)
                     [0..<length (?avg1 ! m)]] =
     map (\<lambda>i. if i < Suc m then map (\<lambda>j. g i j (avg ! i ! j)) [0..<d] else avg ! i)
           [0..<length avg]"
    using Suc.prems(2) m(3)
    by (intro nth_equalityI) (auto simp: nth_list_update less_Suc_eq)
  finally show ?case
    using ih by (simp add: product_snoc foldE_append)
qed


lemma add_sim_fold:
  assumes "length s \<le> length avg" and "\<forall>row \<in> set avg. length row = d"
    and "\<forall>row \<in> set s. d \<le> length row"
  shows "foldE (add_cell s) (List.product [0..<length s] [0..<d]) avg =
    Inr (map (\<lambda>i. map (\<lambda>j. avg ! i ! j + (if i < length s then s ! i ! j else 0)) [0..<d])
           [0..<length avg])"
proof -
  have "foldE (add_cell s) (List.product [0..<length s] [0..<d]) avg =
    Inr (map (\<lambda>i. if i < length s then map (\<lambda>j. avg ! i ! j + s ! i ! j) [0..<d] else avg ! i)
           [0..<length avg])"
  proof (rule cells_fold [where g = "\<lambda>i j a. a + s ! i ! j"])
    fix i j and a :: "real list list"
    assume "i < length s" "j < d" "i < length a" "j < length (a ! i)"
    moreover from this assms(3) have "j < length (s ! i)"
      using nth_mem by fastforce
    ultimately show "add_cell s (i, j) a = Inr (a[i := (a ! i)[j := a ! i ! j + s ! i ! j]])"
      by (simp add: add_cell_def coord_def getitem_def)
  next
    show "length s \<le> length avg" by (rule assms(1))
  next
    show "\<forall>i<length s. length (avg ! i) = d" using assms(1,2) by auto
  qed
  also have "map (\<lambda>i. if i < length s then map (\<lambda>j. avg ! i ! j + s ! i ! j) [0..<d] else avg ! i)
           [0..<length avg] =
      map (\<lambda>i. map (\<lambda>j. avg ! i ! j + (if i < length s then s ! i ! j else 0)) [0..<d])
           [0..<length avg]"
    using assms(2) by (auto simp: map_nth intro!: nth_equalityI)
  finally show ?thesis .
qed

lemma add_sims_fold:
  assumes "\<forall>s \<in> set ss. length s \<le> length avg \<and> (\<forall>row \<in> set s. d \<le> length row)"
    and "\<forall>row \<in> set avg. length row = d"
  shows "foldE (\<lambda>s a. if s \<noteq> [] then foldE (add_cell s) (List.product [0..<length s] [0..<d]) a
                       else Inr a) ss avg =
    Inr (map (\<lambda>i. map (\<lambda>j. avg ! i ! j + (\<Sum>s\<leftarrow>ss. if i < length s then s ! i ! j else 0))
                  [0..<d]) [0..<length avg])"
  using assms
proof (induction ss arbitrary: avg)
  case Nil
  have "map (\<lambda>i. map (\<lambda>j. avg ! i ! j) [0..<d]) [0..<length avg] = avg"
    using Nil.prems(2) by (auto simp: map_nth intro!: nth_equalityI)
  then show ?case by simp
next
  case (Cons s ss)
  let ?avg1 = "map (\<lambda>i. map (\<lambda>j. avg ! i ! j + (if i < length s then s ! i ! j else 0)) [0..<d])
                 [0..<length avg]"
  have step: "(if s \<noteq> [] then foldE (add_cell s) (List.product [0..<length s] [0..<d]) avg
               else Inr avg) = Inr ?avg1"
  proof (cases "s = []")
    case True
    have "map (\<lambda>i. map (\<lambda>j. avg ! i ! j) [0..<d]) [0..<length avg] = avg"
      using Cons.prems(2) by (auto simp: map_nth intro!: nth_equalityI)
    with True show ?thesis by simp
  next
    case False
    with add_sim_fold [of s avg d] Cons.prems show ?thesis by simp
  qed
  have rows: "\<forall>row \<in> set ?avg1. length row = d" by auto
  have lens: "\<forall>s \<in> set ss. length s \<le> length ?avg1 \<and> (\<forall>row \<in> set s. d \<le> length row)"
    using Cons.prems(1) by simp
  have "foldE (\<lambda>s a. if s \<noteq> [] then foldE (add_cell s) (List.product [0..<length s] [0..<d]) a
                       else Inr a) ss ?avg1 =
    Inr (map (\<lambda>i. map (\<lambda>j. ?avg1 ! i ! j + (\<Sum>s\<leftarrow>ss. if i < length s then s ! i ! j else 0))
                  [0..<d]) [0..<length ?avg1])"
    using lens rows by (rule Cons.IH)
  also have "map (\<lambda>i. map (\<lambda>j. ?avg1 ! i ! j + (\<Sum>s\<leftarrow>ss. if i < length s then s ! i ! j else 0))
                  [0..<d]) [0..<length ?avg1] =
     map (\<lambda>i. map (\<lambda>j. avg ! i ! j + (\<Sum>s\<leftarrow>s # ss. if i < length s then s ! i ! j else 0))
                  [0..<d]) [0..<length avg]"
    by (auto intro!: nth_equalityI)
  finally show ?case using step by simp
qed

lemma div_fold:
  assumes "n \<noteq> 0" and "\<forall>row \<in> set avg. length row = d"
  shows "foldE (div_cell n) (List.product [0..<length avg] [0..<d]) avg =
    Inr (map (\<lambda>i. map (\<lambda>j. avg ! i ! j / real n) [0..<d]) [0..<length avg])"
proof -
  have "foldE (div_cell n) (List.product [0..<length avg] [0..<d]) avg =
    Inr (map (\<lambda>i. if i < length avg then map (\<lambda>j. avg ! i ! j / real n) [0..<d] else avg ! i)
           [0..<length avg])"
  proof (rule cells_fold [where g = "\<lambda>i j a. a / real n"])
    fix i j and a :: "real list list"
    assume "i < length avg" "j < d" "i < length a" "j < length (a ! i)"
    then show "div_cell n (i, j) a = Inr (a[i := (a ! i)[j := a ! i ! j / real n]])"
      using assms(1) by (simp add: div_cell_def coord_def getitem_def)
  next
    show "length avg \<le> length avg" by simp
  next
    show "\<forall>i<length avg. length (avg ! i) = d" using assms(2) by auto
  qed
  then show ?thesis by (simp cong: map_cong)
qed

text \<open>
  With at least one recorded trajectory, none longer than the \<open>2 * num_of_steps\<close> rows, the
  result is known in full: row \<open>i\<close> is the coordinate-wise sum over the trajectories that have
  an index \<open>i\<close>, divided by the number of all trajectories.
\<close>

lemma get_avg_path_means:
  assumes "1 < length (path (walker sim))" and "sims sim \<noteq> []"
    and "\<forall>s \<in> set (sims sim). length s \<le> 2 * nat (num_of_steps sim)
           \<and> (\<forall>row \<in> set s. nat (dim (walker sim)) \<le> length row)"
  shows "get_avg_path sim =
    Inr (map (\<lambda>i. map (\<lambda>j. (\<Sum>s\<leftarrow>sims sim. if i < length s then s ! i ! j else 0)
                              / real (length (sims sim)))
                  [0..<nat (dim (walker sim))])
           [0..<2 * nat (num_of_steps sim)])"
proof -
  define d where "d = nat (dim (walker sim))"
  define n where "n = nat (num_of_steps sim)"
  define ss where "ss = sims sim"
  define init :: "real list list" where "init = replicate (2 * n) (replicate d 0)"
  define total where "total = (\<lambda>i j. \<Sum>s\<leftarrow>ss. if i < length s then s ! i ! j else (0::real))"
  define summed where "summed = map (\<lambda>i. map (\<lambda>j. init ! i ! j + total i j) [0..<d]) [0..<length init]"
  have init_eq: "replicate n (replicate d 0) @ replicate n (replicate d (0::real)) = init"
    unfolding init_def by (simp add: replicate_add [symmetric] mult_2)
  have len_init: "length init = 2 * n" unfolding init_def by simp
  have rows: "\<forall>row \<in> set init. length row = d" unfolding init_def by simp
  have lens: "\<forall>s \<in> set ss. length s \<le> length init \<and> (\<forall>row \<in> set s. d \<le> length row)"
    using assms(3) unfolding len_init ss_def d_def n_def by blast
  have sum: "foldE (\<lambda>s a. if s \<noteq> []
                 then foldE (add_cell s) (List.product [0..<length s] [0..<d]) a
                 else Inr a) ss init = Inr summed"
    unfolding summed_def total_def using lens rows by (rule add_sims_fold)
  have len_summed: "length summed = 2 * n" unfolding summed_def by (simp add: len_init)
  have rows': "\<forall>row \<in> set summed. length row = d" unfolding summed_def by auto
  have cell: "summed ! i ! j = total i j" if "i < 2 * n" "j < d" for i j
    using that unfolding summed_def init_def by simp
  have n0: "length ss \<noteq> 0" using assms(2) unfolding ss_def by simp
  have dv: "foldE (div_cell (length ss)) (List.product [0..<length summed] [0..<d]) summed =
      Inr (map (\<lambda>i. map (\<lambda>j. summed ! i ! j / real (length ss)) [0..<d]) [0..<length summed])"
    using n0 rows' by (rule div_fold)
  have fin: "map (\<lambda>i. map (\<lambda>j. summed ! i ! j / real (length ss)) [0..<d]) [0..<length summed] =
      map (\<lambda>i. map (\<lambda>j. total i j / real (length ss)) [0..<d]) [0..<2 * n]"
    unfolding len_summed by (simp add: cell)
  have "get_avg_path sim =
    (case foldE (\<lambda>s a. if s \<noteq> []
                 then foldE (add_cell s) (List.product [0..<length s] [0..<d]) a
                 else Inr a) ss (replicate n (replicate d 0) @ replicate n (replicate d 0)) of
       Inl e \<Rightarrow> Inl e
     | Inr summed \<Rightarrow> foldE (div_cell (length ss))
              (List.product [0..<length summed] [0..<d]) summed)"
    using assms(1) unfolding d_def n_def ss_def
    by (simp add: get_avg_path_def get_path_def get_dim_def Let_def)
  also have "\<dots> = Inr (map (\<lambda>i. map (\<lambda>j. total i j / real (length ss)) [0..<d]) [0..<2 * n])"
    unfolding init_eq sum using dv fin by simp
  finally show ?thesis unfolding total_def d_def n_def ss_def .
qed

text \<open>
  C1. \<open>Simulation(2, 3, walker, [0, 1], 1)\<close>, two trials of three steps, each walking the same
  four points: after \<open>run()\<close>, \<open>get_avg_path()\<close> returns six points, twice \<open>num_of_steps\<close>
  and not \<open>num_of_steps\<close>: the means of the four recorded indices and two rows that are still
  zero. And with a walker that has walked before and no trial run, the call divides by the
  zero length of \<open>sims\<close> instead of raising ValueError.
\<close>

theorem get_avg_path_after_run:
  "Simulation_init 2 3 plain_walker [0, 1] 1 = Inr short_sim
   \<and> run east_ops short_sim 0 = Some (Inr (ran_sim, 12))
   \<and> get_avg_path ran_sim = Inr [[0, 0], [1, 0], [2, 0], [3, 0], [0, 0], [0, 0]]
   \<and> Simulation_init 2 3 east_walker [0, 1] 1 = Inr (short_sim\<lparr>walker := east_walker\<rparr>)
   \<and> get_avg_path (short_sim\<lparr>walker := east_walker\<rparr>) = Inl ZeroDivisionError"
proof -
  have a: "get_avg_path ran_sim = Inr [[0, 0], [1, 0], [2, 0], [3, 0], [0, 0], [0, 0]]"
    by (simp add: get_avg_path_def ran_sim_def short_sim_def east_walker_def plain_walker_def
        get_path_def get_dim_def add_cell_def div_cell_def coord_def getitem_def upt_rec
        numeral_2_eq_2 numeral_3_eq_3)
  have b: "Simulation_init 2 3 east_walker [0, 1] 1 = Inr (short_sim\<lparr>walker := east_walker\<rparr>)"
    by (simp add: Simulation_init_def short_sim_def get_dim_def get_restart_every_def
        east_walker_def plain_walker_def)
  have c: "get_avg_path (short_sim\<lparr>walker := east_walker\<rparr>) = Inl ZeroDivisionError"
    by (simp add: get_avg_path_def short_sim_def east_walker_def plain_walker_def
        get_path_def get_dim_def add_cell_def div_cell_def coord_def getitem_def upt_rec
        numeral_2_eq_2 numeral_3_eq_3)
  from init_short_sim run_short_sim a b c show ?thesis by simp
qed

subsection \<open>Copies\<close>

lemmas store_defs = init_refs_def empty_store_def new_vector_def new_list_def get_path_ref_def
  get_current_position_ref_def vector_setitem_def vector_assign_def list_assign_def
  trajectory_def cursor_def list_value_def vec_value_def




lemma array_position_is_view:
  assumes "position_ref wr = NdArray r"
  shows "cursor wr (vector_assign (fst (get_current_position_ref wr h)) xs
                      (snd (get_current_position_ref wr h))) = xs"
  using assms by (simp add: store_defs)




end
